theory Spec2Isabelle
  imports Main
begin

section \<open>The toy tensor class of the QTensor tutorial\<close>

text \<open>
  The tutorial notebook defines a class \<open>tequilaTensor\<close> with two fields, \<open>shape\<close>
  (a Python list of ints) and \<open>objective_list\<close> (a flat Python list of the entries),
  and the methods \<open>access\<close>, \<open>__getitem__\<close>, \<open>__add__\<close>, \<open>__mul__\<close>,
  \<open>__rmul__\<close> and \<open>_prod\<close>. The entries are numbers or objectives; their type is
  left open here and only needs the arithmetic operation a method applies to them.
\<close>

subsection \<open>Data\<close>

record 'a tequilaTensor =
  shape :: "int list"
  objective_list :: "'a list"

text \<open>
  The exceptions the class can end in: the two generic \<open>Exception\<close>s it raises itself
  (told apart by where they are raised), its \<open>ValueError\<close>, and the \<open>IndexError\<close> of a
  Python list read out of range.
\<close>

datatype error =
    AccessShapeException
  | ShapeException
  | ValueError
  | IndexError

text \<open>
  The right operand of \<open>__mul__\<close>: a Python number (\<open>int\<close>, \<open>float\<close> or \<open>complex\<close>,
  the three types the \<open>isinstance\<close> test accepts) or another tensor.
\<close>

datatype 'a operand = Scalar 'a | Tensor "'a tequilaTensor"

subsection \<open>Python list indexing\<close>

text \<open>
  \<open>xs[i]\<close> for a Python int \<open>i\<close>: a negative index counts from the end, and an index
  outside \<open>-len(xs) .. len(xs) - 1\<close> raises \<open>IndexError\<close>.
\<close>

definition py_index :: "'a list \<Rightarrow> int \<Rightarrow> error + 'a" where
  "py_index xs i =
     (if 0 \<le> i \<and> i < int (length xs) then Inr (xs ! nat i)
      else if - int (length xs) \<le> i \<and> i < 0 then Inr (xs ! nat (int (length xs) + i))
      else Inl IndexError)"

subsection \<open>The methods\<close>

text \<open>
  \<open>_prod(any_list, integer)\<close>: the product of the entries of \<open>any_list\<close> at the
  positions \<open>integer + 1 .. len(any_list) - 1\<close>, accumulated from 1 by the loop
  \<open>for i in range(integer+1, len(any_list)): prod = prod * any_list[i]\<close>.
\<close>

definition prod_after :: "int list \<Rightarrow> nat \<Rightarrow> int" where
  "prod_after any_list integer =
     fold (\<lambda>i prod. prod * any_list ! i) [integer + 1 ..< length any_list] 1"

text \<open>
  The first loop of \<open>access\<close>, which raises \<open>ValueError\<close> at the first position \<open>j\<close>
  with \<open>idx[j] >= shape[j]\<close>. It runs only when both lists have the same length.
  \<open>bounds_loop\<close> is \<open>True\<close> when the loop ends without raising.
\<close>

definition bounds_loop :: "int list \<Rightarrow> int list \<Rightarrow> bool" where
  "bounds_loop idx shp = list_all (\<lambda>j. \<not> idx ! j \<ge> shp ! j) [0 ..< length idx]"

text \<open>
  The second loop of \<open>access\<close>: \<open>list_index\<close> starts at 0; every position but the last
  adds \<open>idx[i] * _prod(shape, i)\<close>, the last one adds \<open>idx[i] + 1\<close>.
\<close>

definition list_index :: "int list \<Rightarrow> int list \<Rightarrow> int" where
  "list_index idx shp =
     fold (\<lambda>i acc. if int i \<noteq> int (length idx) - 1
                    then acc + idx ! i * prod_after shp i
                    else acc + (idx ! i + 1))
          [0 ..< length idx] 0"

definition access :: "'a tequilaTensor \<Rightarrow> int list \<Rightarrow> error + 'a" where
  "access self idx =
     (if length idx \<noteq> length (shape self) then Inl AccessShapeException
      else if \<not> bounds_loop idx (shape self) then Inl ValueError
      else py_index (objective_list self) (list_index idx (shape self) - 1))"

definition getitem :: "'a tequilaTensor \<Rightarrow> int list \<Rightarrow> error + 'a" where
  "getitem self item = access self item"

text \<open>
  The loop shared by \<open>__add__\<close> and the tensor branch of \<open>__mul__\<close>:
  \<open>for i in range(len(self.objective_list)): out.append(self.objective_list[i] op
  other.objective_list[i])\<close>. The read of \<open>other.objective_list[i]\<close> raises
  \<open>IndexError\<close> when the other list is shorter.
\<close>

definition elementwise :: "('a \<Rightarrow> 'a \<Rightarrow> 'a) \<Rightarrow> 'a list \<Rightarrow> 'a list \<Rightarrow> error + 'a list" where
  "elementwise f xs ys =
     fold (\<lambda>i acc. case acc of
                      Inl e \<Rightarrow> Inl e
                    | Inr out \<Rightarrow> (case py_index ys (int i) of
                                   Inl e \<Rightarrow> Inl e
                                 | Inr y \<Rightarrow> Inr (out @ [f (xs ! i) y])))
          [0 ..< length xs] (Inr [])"

definition add :: "('a::plus) tequilaTensor \<Rightarrow> 'a tequilaTensor \<Rightarrow> error + 'a tequilaTensor" where
  "add self other =
     (if shape self \<noteq> shape other then Inl ShapeException
      else case elementwise (+) (objective_list self) (objective_list other) of
             Inl e \<Rightarrow> Inl e
           | Inr added_list \<Rightarrow> Inr \<lparr>shape = shape self, objective_list = added_list\<rparr>)"

text \<open>
  The scalar loop of \<open>__mul__\<close>:
  \<open>for i in range(len(self.objective_list)): out.append(self.objective_list[i] * other)\<close>.
\<close>

definition scale :: "('a::times) list \<Rightarrow> 'a \<Rightarrow> 'a list" where
  "scale xs c = fold (\<lambda>i out. out @ [xs ! i * c]) [0 ..< length xs] []"

fun mul :: "('a::times) tequilaTensor \<Rightarrow> 'a operand \<Rightarrow> error + 'a tequilaTensor" where
  "mul self (Scalar c) =
     Inr \<lparr>shape = shape self, objective_list = scale (objective_list self) c\<rparr>"
| "mul self (Tensor other) =
     (if shape self \<noteq> shape other then Inl ShapeException
      else case elementwise (*) (objective_list self) (objective_list other) of
             Inl e \<Rightarrow> Inl e
           | Inr multiplied_list \<Rightarrow> Inr \<lparr>shape = shape self, objective_list = multiplied_list\<rparr>)"

definition rmul :: "('a::times) tequilaTensor \<Rightarrow> 'a operand \<Rightarrow> error + 'a tequilaTensor" where
  "rmul self other = mul self other"

subsection \<open>Notions the statements use\<close>

text \<open>
  A tensor is consistent when its flat list has as many entries as the product of its
  shape.
\<close>

definition consistent :: "'a tequilaTensor \<Rightarrow> bool" where
  "consistent A \<longleftrightarrow> int (length (objective_list A)) = prod_list (shape A)"

text \<open>
  The row-major flat index of \<open>idx\<close> in a tensor of shape \<open>shp\<close>: the sum over the
  positions \<open>i\<close> of \<open>idx[i]\<close> times the product of \<open>shp[i+1:]\<close>.
\<close>

definition row_major :: "int list \<Rightarrow> int list \<Rightarrow> int" where
  "row_major idx shp = (\<Sum>i \<leftarrow> [0 ..< length idx]. idx ! i * prod_list (drop (i + 1) shp))"

text \<open>
  An index sequence is in bounds for a shape when it has the shape's length and
  \<open>0 <= idx[j] < shp[j]\<close> at every position.
\<close>

definition in_bounds :: "int list \<Rightarrow> int list \<Rightarrow> bool" where
  "in_bounds idx shp \<longleftrightarrow>
     length idx = length shp \<and>
     list_all (\<lambda>j. 0 \<le> idx ! j \<and> idx ! j < shp ! j) [0 ..< length idx]"

subsection \<open>The tensors of the tutorial's test cell\<close>

text \<open>
  \<open>A = tequilaTensor(objective_list=[1,2,3,4,5,6,7,8], shape=[4,2])\<close>, and a vector of
  another shape as in the commented-out \<open>tequilaTensor(objective_list=[3,4], shape=[2])\<close>.
\<close>

definition example_A :: "int tequilaTensor" where
  "example_A = \<lparr>shape = [4, 2], objective_list = [1, 2, 3, 4, 5, 6, 7, 8]\<rparr>"

definition example_B :: "int tequilaTensor" where
  "example_B = \<lparr>shape = [2], objective_list = [3, 4]\<rparr>"

section \<open>Properties of the loops\<close>

subsection \<open>Products and the flat index\<close>

lemma fold_mult_upt:
  "fold (\<lambda>i p. p * xs ! i) [a ..< b] (c::int) = c * prod_list (map (nth xs) [a ..< b])"
proof (induction b)
  case 0
  then show ?case by simp
next
  case (Suc b)
  then show ?case by (cases "a \<le> b") (simp_all add: mult.assoc)
qed

lemma prod_after_drop: "prod_after xs i = prod_list (drop (i + 1) xs)"
proof -
  have "drop (i + 1) (map (nth xs) [0 ..< length xs]) = map (nth xs) [i + 1 ..< length xs]"
    by (simp add: drop_map)
  then have "map (nth xs) [i + 1 ..< length xs] = drop (i + 1) xs"
    by (simp add: map_nth)
  then show ?thesis
    by (simp add: prod_after_def fold_mult_upt)
qed

lemma fold_add_upt:
  "fold (\<lambda>i acc. acc + g i) [a ..< b] (c::int) = c + sum_list (map g [a ..< b])"
proof (induction b)
  case 0
  then show ?case by simp
next
  case (Suc b)
  then show ?case by (cases "a \<le> b") simp_all
qed

lemma list_index_sum:
  "list_index idx shp =
     (\<Sum>i \<leftarrow> [0 ..< length idx].
        if int i \<noteq> int (length idx) - 1 then idx ! i * prod_after shp i else idx ! i + 1)"
proof -
  have "(\<lambda>i acc. if int i \<noteq> int (length idx) - 1
                    then acc + idx ! i * prod_after shp i
                    else acc + (idx ! i + 1))
        = (\<lambda>i acc. acc + (if int i \<noteq> int (length idx) - 1
                             then idx ! i * prod_after shp i else idx ! i + 1))"
    by (intro ext) simp
  then show ?thesis
    by (simp add: list_index_def fold_add_upt)
qed

lemma list_index_Nil: "list_index [] shp = 0"
  by (simp add: list_index_def)

lemma sum_list_upt_last:
  "(\<Sum>i \<leftarrow> [0 ..< Suc n]. if i \<noteq> n then f i else h i) = (\<Sum>i \<leftarrow> [0 ..< n]. f i) + (h n :: int)"
proof -
  have "map (\<lambda>i. if i \<noteq> n then f i else h i) [0 ..< n] = map f [0 ..< n]"
    by (rule map_cong) auto
  then have "(\<Sum>i \<leftarrow> [0 ..< n]. if i \<noteq> n then f i else h i) = (\<Sum>i \<leftarrow> [0 ..< n]. f i)"
    by (rule arg_cong)
  then show ?thesis by simp
qed

text \<open>
  With at least one component, the loop of \<open>access\<close> ends one above the row-major index:
  the last component contributes \<open>idx[i] + 1\<close> where row-major order has
  \<open>idx[i] * 1\<close>.
\<close>

lemma list_index_row_major:
  assumes "length idx = length shp" and "idx \<noteq> []"
  shows "list_index idx shp = row_major idx shp + 1"
proof -
  obtain n where n: "length idx = Suc n"
    using assms(2) by (cases idx) auto
  have c: "(int i \<noteq> int (Suc n) - 1) = (i \<noteq> n)" for i
    by auto
  have "prod_list (drop (Suc n) shp) = 1"
    using assms(1) n by simp
  then show ?thesis
    unfolding list_index_sum row_major_def n c sum_list_upt_last
    by (simp add: prod_after_drop)
qed

lemma row_major_Cons:
  "row_major (i # idx) (s # shp) = i * prod_list shp + row_major idx shp"
proof -
  have "[0 ..< Suc (length idx)] = 0 # map Suc [0 ..< length idx]"
    by (simp add: upt_conv_Cons map_Suc_upt del: upt_Suc)
  then show ?thesis
    by (simp add: row_major_def comp_def del: upt_Suc)
qed

lemma row_major_Nil: "row_major [] shp = 0"
  by (simp add: row_major_def)

lemma in_bounds_iff:
  "in_bounds idx shp \<longleftrightarrow>
     length idx = length shp \<and> (\<forall>j < length idx. 0 \<le> idx ! j \<and> idx ! j < shp ! j)"
  by (auto simp: in_bounds_def list_all_iff)

lemma in_bounds_Cons:
  "in_bounds (i # idx) (s # shp) \<longleftrightarrow> 0 \<le> i \<and> i < s \<and> in_bounds idx shp"
  unfolding in_bounds_iff
  by (auto simp: nth_Cons split: nat.splits)

lemma in_bounds_Nil: "in_bounds [] shp \<longleftrightarrow> shp = []"
  by (auto simp: in_bounds_iff)

lemma row_major_range:
  "in_bounds idx shp \<Longrightarrow> 0 \<le> row_major idx shp \<and> row_major idx shp < prod_list shp"
proof (induction idx arbitrary: shp)
  case Nil
  then show ?case by (simp add: in_bounds_Nil row_major_Nil)
next
  case (Cons i idx)
  from Cons.prems obtain s ss where shp: "shp = s # ss"
    by (cases shp) (auto simp: in_bounds_def)
  with Cons.prems have i: "0 \<le> i" "i < s" and rest: "in_bounds idx ss"
    by (simp_all add: in_bounds_Cons)
  from Cons.IH [OF rest] have r: "0 \<le> row_major idx ss" "row_major idx ss < prod_list ss"
    by simp_all
  then have P: "0 < prod_list ss" by linarith
  have lo: "0 \<le> i * prod_list ss + row_major idx ss"
    using i(1) P r(1) by simp
  have "i * prod_list ss + row_major idx ss < i * prod_list ss + prod_list ss"
    using r(2) by simp
  also have "\<dots> = (i + 1) * prod_list ss"
    by (simp add: algebra_simps)
  also have "\<dots> \<le> s * prod_list ss"
    using i(2) P by (intro mult_right_mono) simp_all
  finally show ?case
    using lo by (simp add: shp row_major_Cons)
qed

subsection \<open>Reading an entry\<close>

lemma py_index_nonneg:
  "0 \<le> k \<Longrightarrow> k < int (length xs) \<Longrightarrow> py_index xs k = Inr (xs ! nat k)"
  by (simp add: py_index_def)

lemma bounds_loop_iff:
  "bounds_loop idx shp \<longleftrightarrow> (\<forall>j < length idx. idx ! j < shp ! j)"
  by (fastforce simp: bounds_loop_def list_all_iff not_le)

lemma in_bounds_bounds_loop: "in_bounds idx shp \<Longrightarrow> bounds_loop idx shp"
  by (simp add: in_bounds_iff bounds_loop_iff)

lemma access_in_bounds:
  assumes "consistent A" and "in_bounds idx (shape A)"
  shows "access A idx = Inr (objective_list A ! nat (row_major idx (shape A)))"
proof (cases "idx = []")
  case True
  with assms(2) have "shape A = []" by (simp add: in_bounds_Nil)
  with assms(1) have "length (objective_list A) = 1" by (simp add: consistent_def)
  then show ?thesis
    using True \<open>shape A = []\<close>
    by (simp add: access_def bounds_loop_def list_index_Nil row_major_Nil py_index_def)
next
  case False
  from assms(2) have len: "length idx = length (shape A)"
    by (simp add: in_bounds_def)
  have "list_index idx (shape A) - 1 = row_major idx (shape A)"
    using list_index_row_major [OF len False] by simp
  moreover have "0 \<le> row_major idx (shape A)"
    "row_major idx (shape A) < int (length (objective_list A))"
    using row_major_range [OF assms(2)] assms(1) by (simp_all add: consistent_def)
  ultimately show ?thesis
    using len in_bounds_bounds_loop [OF assms(2)]
    by (simp add: access_def py_index_nonneg)
qed

subsection \<open>The element-wise loops\<close>

lemma elementwise_prefix:
  assumes "n \<le> length ys"
  shows "fold (\<lambda>i acc. case acc of
                      Inl e \<Rightarrow> Inl e
                    | Inr out \<Rightarrow> (case py_index ys (int i) of
                                   Inl e \<Rightarrow> Inl e
                                 | Inr y \<Rightarrow> Inr (out @ [f (xs ! i) y])))
          [0 ..< n] (Inr []) = Inr (map (\<lambda>i. f (xs ! i) (ys ! i)) [0 ..< n])"
  using assms
proof (induction n)
  case 0
  then show ?case by simp
next
  case (Suc n)
  then have "py_index ys (int n) = Inr (ys ! n)"
    by (simp add: py_index_def)
  with Suc show ?case by simp
qed

lemma elementwise_same_length:
  "length xs = length ys \<Longrightarrow>
   elementwise f xs ys = Inr (map (\<lambda>i. f (xs ! i) (ys ! i)) [0 ..< length xs])"
  unfolding elementwise_def by (rule elementwise_prefix) simp

lemma scale_prefix:
  "n \<le> length xs \<Longrightarrow>
   fold (\<lambda>i out. out @ [xs ! i * c]) [0 ..< n] [] = map (\<lambda>x. x * c) (take n xs)"
  by (induction n) (simp_all add: take_Suc_conv_app_nth)

lemma scale_map: "scale xs c = map (\<lambda>x. x * c) xs"
  by (simp add: scale_def scale_prefix)

lemma consistent_same_shape:
  "consistent A \<Longrightarrow> consistent B \<Longrightarrow> shape A = shape B \<Longrightarrow>
   length (objective_list A) = length (objective_list B)"
  by (simp add: consistent_def)

lemma consistent_example_A: "consistent example_A"
  by (simp add: consistent_def example_A_def)

lemma consistent_example_B: "consistent example_B"
  by (simp add: consistent_def example_B_def)

lemma in_bounds_3_1: "in_bounds [3, 1] (shape example_A)"
  by (simp add: in_bounds_def example_A_def upt_rec)

section \<open>Behaviour of the methods\<close>

text \<open>
  C1. For two tensors \<open>A\<close> and \<open>B\<close> whose flat lists have as many entries as the
  product of their shapes, \<open>A + B\<close> raises an exception if and only if the shapes
  differ; with equal shapes it returns a new tensor of shape \<open>A.shape\<close> whose flat list
  is \<open>[A.objective_list[i] + B.objective_list[i] for i in range(len(A.objective_list))]\<close>.
\<close>

theorem add_shape_check:
  assumes "consistent A" and "consistent B"
  shows "((\<exists>e. add A B = Inl e) \<longleftrightarrow> shape A \<noteq> shape B) \<and>
         (shape A = shape B \<longrightarrow>
            length (objective_list B) = length (objective_list A) \<and>
            add A B = Inr \<lparr>shape = shape A,
                           objective_list = map (\<lambda>i. objective_list A ! i + objective_list B ! i)
                                                [0 ..< length (objective_list A)]\<rparr>)"
proof (cases "shape A = shape B")
  case True
  then have len: "length (objective_list A) = length (objective_list B)"
    using assms by (rule consistent_same_shape [rotated 2])
  then show ?thesis
    using True by (simp add: add_def elementwise_same_length)
next
  case False
  then show ?thesis by (simp add: add_def)
qed

theorem add_shape_check_witness:
  "consistent example_A \<and> consistent example_B \<and>
   add example_A example_A =
     Inr \<lparr>shape = [4, 2], objective_list = [2, 4, 6, 8, 10, 12, 14, 16]\<rparr> \<and>
   (\<exists>e. add example_A example_B = Inl e)"
proof -
  have eval: "map (\<lambda>i. objective_list example_A ! i + objective_list example_A ! i)
            [0 ..< length (objective_list example_A)] = [2, 4, 6, 8, 10, 12, 14, 16]"
    by (simp add: example_A_def upt_rec)
  have diff: "shape example_A \<noteq> shape example_B"
    by (simp add: example_A_def example_B_def)
  have same: "shape example_A = [4, 2]"
    by (simp add: example_A_def)
  show ?thesis
    using add_shape_check [OF consistent_example_A consistent_example_A]
      add_shape_check [OF consistent_example_A consistent_example_B]
      consistent_example_A consistent_example_B eval diff same
    by simp
qed

text \<open>
  C2. For a tensor \<open>A\<close> whose flat list has as many entries as the product of its shape
  and any index sequence \<open>idx\<close>: \<open>access\<close> raises an exception when \<open>idx\<close> has not
  the length of the shape; it raises \<open>ValueError\<close> when the lengths agree and some
  \<open>idx[j] >= shape[j]\<close>; it returns an entry of the flat list when the lengths agree
  and \<open>0 <= idx[j] < shape[j]\<close> at every position. \<open>__getitem__\<close> is \<open>access\<close>.
\<close>

theorem access_raises_or_returns:
  assumes "consistent A"
  shows "(length idx \<noteq> length (shape A) \<longrightarrow> access A idx = Inl AccessShapeException) \<and>
         (length idx = length (shape A) \<and> (\<exists>j < length idx. idx ! j \<ge> shape A ! j) \<longrightarrow>
            access A idx = Inl ValueError) \<and>
         (length idx = length (shape A) \<and>
          (\<forall>j < length idx. 0 \<le> idx ! j \<and> idx ! j < shape A ! j) \<longrightarrow>
            (\<exists>x \<in> set (objective_list A). access A idx = Inr x)) \<and>
         getitem A idx = access A idx"
proof (intro conjI impI)
  assume "length idx \<noteq> length (shape A)"
  then show "access A idx = Inl AccessShapeException"
    by (simp add: access_def)
next
  assume "length idx = length (shape A) \<and> (\<exists>j < length idx. idx ! j \<ge> shape A ! j)"
  then have "length idx = length (shape A)" and "\<not> bounds_loop idx (shape A)"
    by (auto simp: bounds_loop_iff)
  then show "access A idx = Inl ValueError"
    by (simp add: access_def)
next
  assume "length idx = length (shape A) \<and>
          (\<forall>j < length idx. 0 \<le> idx ! j \<and> idx ! j < shape A ! j)"
  then have b: "in_bounds idx (shape A)"
    by (simp add: in_bounds_iff)
  let ?k = "row_major idx (shape A)"
  have "0 \<le> ?k" and "?k < int (length (objective_list A))"
    using row_major_range [OF b] assms by (simp_all add: consistent_def)
  then have "objective_list A ! nat ?k \<in> set (objective_list A)"
    by simp
  then show "\<exists>x \<in> set (objective_list A). access A idx = Inr x"
    using access_in_bounds [OF assms b] by blast
next
  show "getitem A idx = access A idx"
    by (simp add: getitem_def)
qed

theorem access_raises_or_returns_witness:
  "consistent example_A \<and>
   access example_A [0] = Inl AccessShapeException \<and>
   access example_A [4, 0] = Inl ValueError \<and>
   (\<exists>x \<in> set (objective_list example_A). access example_A [3, 1] = Inr x) \<and>
   getitem example_A [3, 1] = access example_A [3, 1]"
proof -
  have one: "length [0::int] \<noteq> length (shape example_A)"
    by (simp add: example_A_def)
  have two: "length [4, 0::int] = length (shape example_A) \<and>
             (\<exists>j < length [4, 0::int]. [4, 0] ! j \<ge> shape example_A ! j)"
    by (auto simp: example_A_def intro: exI [of _ 0])
  have three: "length ([3, 1] :: int list) = length (shape example_A) \<and>
             (\<forall>j < length ([3, 1] :: int list).
                 0 \<le> ([3, 1] :: int list) ! j \<and> ([3, 1] :: int list) ! j < shape example_A ! j)"
    by (rule in_bounds_3_1 [unfolded in_bounds_iff])
  show ?thesis
    using access_raises_or_returns [OF consistent_example_A, of "[0]"]
      access_raises_or_returns [OF consistent_example_A, of "[4, 0]"]
      access_raises_or_returns [OF consistent_example_A, of "[3, 1]"]
      one two three consistent_example_A
    by blast
qed

text \<open>
  C3. \<open>A * c\<close> for a number \<open>c\<close> returns a new tensor of shape \<open>A.shape\<close> with the
  flat list \<open>[x * c for x in A.objective_list]\<close>, whatever \<open>A\<close> is. \<open>A * B\<close> for a
  tensor \<open>B\<close> of another shape raises an exception, and for a tensor of the same shape
  (both flat lists as long as the product of the shape) it returns the tensor of the
  element-wise products, of shape \<open>A.shape\<close>.
\<close>

theorem mul_cases:
  "mul A (Scalar c) =
     Inr \<lparr>shape = shape A, objective_list = map (\<lambda>x. x * c) (objective_list A)\<rparr> \<and>
   (shape B \<noteq> shape A \<longrightarrow> (\<exists>e. mul A (Tensor B) = Inl e)) \<and>
   (shape B = shape A \<and> consistent A \<and> consistent B \<longrightarrow>
      length (objective_list B) = length (objective_list A) \<and>
      mul A (Tensor B) =
        Inr \<lparr>shape = shape A,
             objective_list = map (\<lambda>i. objective_list A ! i * objective_list B ! i)
                                  [0 ..< length (objective_list A)]\<rparr>)"
proof (intro conjI impI)
  show "mul A (Scalar c) =
     Inr \<lparr>shape = shape A, objective_list = map (\<lambda>x. x * c) (objective_list A)\<rparr>"
    by (simp add: scale_map)
next
  assume "shape B \<noteq> shape A"
  then show "\<exists>e. mul A (Tensor B) = Inl e"
    by auto
next
  assume h: "shape B = shape A \<and> consistent A \<and> consistent B"
  then show len: "length (objective_list B) = length (objective_list A)"
    using consistent_same_shape [of A B] by simp
  then show "mul A (Tensor B) =
        Inr \<lparr>shape = shape A,
             objective_list = map (\<lambda>i. objective_list A ! i * objective_list B ! i)
                                  [0 ..< length (objective_list A)]\<rparr>"
    using h by (simp add: elementwise_same_length)
qed

theorem mul_cases_witness:
  "mul example_A (Scalar 2) =
     Inr \<lparr>shape = [4, 2], objective_list = [2, 4, 6, 8, 10, 12, 14, 16]\<rparr> \<and>
   (\<exists>e. mul example_A (Tensor example_B) = Inl e) \<and>
   mul example_A (Tensor example_A) =
     Inr \<lparr>shape = [4, 2], objective_list = [1, 4, 9, 16, 25, 36, 49, 64]\<rparr>"
proof -
  have eval: "map (\<lambda>i. objective_list example_A ! i * objective_list example_A ! i)
            [0 ..< length (objective_list example_A)] = [1, 4, 9, 16, 25, 36, 49, 64]"
    by (simp add: example_A_def upt_rec)
  have sc: "map (\<lambda>x. x * 2) (objective_list example_A) = [2, 4, 6, 8, 10, 12, 14, 16]"
    by (simp add: example_A_def)
  have diff: "shape example_B \<noteq> shape example_A"
    by (simp add: example_A_def example_B_def)
  have same: "shape example_A = [4, 2]"
    by (simp add: example_A_def)
  show ?thesis
    using mul_cases [of example_A 2 example_B] mul_cases [of example_A 2 example_A]
      consistent_example_A eval sc diff same
    by simp
qed

text \<open>
  C4. For a tensor \<open>A\<close> whose flat list has as many entries as the product of its shape
  and an index sequence within bounds, \<open>access\<close> returns \<open>A.objective_list[k]\<close> for the
  row-major index \<open>k\<close>, the sum of \<open>idx[i]\<close> times the product of \<open>shape[i+1:]\<close>; \<open>k\<close>
  lies within the list, and for a non-empty \<open>idx\<close> the loop's \<open>list_index - 1\<close> is
  \<open>k\<close>: the 1 added with the last component and the 1 subtracted in the lookup cancel.
  For the shape \<open>[4, 2]\<close> and \<open>idx = (3, 1)\<close>, \<open>k = 7\<close>.
\<close>

theorem access_row_major:
  assumes "consistent A"
    and "length idx = length (shape A)"
    and "\<forall>j < length idx. 0 \<le> idx ! j \<and> idx ! j < shape A ! j"
  shows "access A idx = Inr (objective_list A ! nat (row_major idx (shape A))) \<and>
         0 \<le> row_major idx (shape A) \<and>
         row_major idx (shape A) < int (length (objective_list A)) \<and>
         (idx \<noteq> [] \<longrightarrow> list_index idx (shape A) - 1 = row_major idx (shape A))"
proof -
  from assms(2,3) have b: "in_bounds idx (shape A)"
    by (simp add: in_bounds_iff)
  have "0 \<le> row_major idx (shape A)"
    and "row_major idx (shape A) < int (length (objective_list A))"
    using row_major_range [OF b] assms(1) by (simp_all add: consistent_def)
  moreover have "idx \<noteq> [] \<longrightarrow> list_index idx (shape A) - 1 = row_major idx (shape A)"
    using list_index_row_major [OF assms(2)] by simp
  ultimately show ?thesis
    using access_in_bounds [OF assms(1) b] by simp
qed

theorem access_row_major_witness:
  "consistent example_A \<and> length ([3, 1] :: int list) = length (shape example_A) \<and>
   row_major [3, 1] (shape example_A) = 7 \<and>
   list_index [3, 1] (shape example_A) = 8 \<and>
   access example_A [3, 1] = Inr 8"
proof -
  have len: "length ([3, 1] :: int list) = length (shape example_A)"
    by (simp add: example_A_def)
  have bnd: "\<forall>j < length ([3, 1] :: int list).
               0 \<le> ([3, 1] :: int list) ! j \<and> ([3, 1] :: int list) ! j < shape example_A ! j"
    using in_bounds_3_1 [unfolded in_bounds_iff] by (rule conjunct2)
  have k: "row_major [3, 1] (shape example_A) = 7"
    by (simp add: row_major_def example_A_def upt_rec)
  have v: "objective_list example_A ! nat 7 = 8"
    by (simp add: example_A_def)
  show ?thesis
    using access_row_major [OF consistent_example_A len bnd] consistent_example_A len k v
    by simp
qed

text \<open>
  C5. For a number \<open>c\<close>, Python evaluates \<open>c * A\<close> as \<open>A.__rmul__(c)\<close> and \<open>A * c\<close> as
  \<open>A.__mul__(c)\<close>. \<open>__rmul__\<close> hands its argument to \<open>__mul__\<close>, so both give the same
  tensor: the shape of \<open>A\<close> and the flat list \<open>[x * c for x in A.objective_list]\<close>.
\<close>

theorem rmul_scalar:
  "rmul A (Scalar c) = mul A (Scalar c) \<and>
   mul A (Scalar c) =
     Inr \<lparr>shape = shape A, objective_list = map (\<lambda>x. x * c) (objective_list A)\<rparr>"
  by (simp add: rmul_def scale_map)

text \<open>
  C6. The bounds loop of \<open>access\<close> rejects only components that are too large. For the
  shape \<open>[4, 2]\<close> and any flat list of eight entries, \<open>access((-1, 0))\<close> passes the
  loop, computes \<open>list_index = -1\<close> and returns \<open>objective_list[-2]\<close>, the seventh entry,
  without raising.
\<close>

theorem access_negative_component:
  "list_index [- 1, 0] [4, 2] = - 1 \<and>
   py_index [a0, a1, a2, a3, a4, a5, a6, a7] (- 2) = Inr a6 \<and>
   access \<lparr>shape = [4, 2], objective_list = [a0, a1, a2, a3, a4, a5, a6, a7]\<rparr> [- 1, 0] = Inr a6"
  by (simp add: access_def bounds_loop_def list_index_def prod_after_def py_index_def upt_rec)

end
